theory Spec2Isabelle
  imports Main "HOL-Library.Word"
begin

section \<open>Requirement extraction of build/registry/pkg/oci/requirements.go\<close>

text \<open>
  The file under verification defines two functions, \<open>rulesfileRequirement\<close> and
  \<open>pluginRequirement\<close>. Both return a pair \<open>(*oci.ArtifactRequirement, error)\<close>.
  Go strings are byte sequences, so they are modelled as \<open>string\<close> (a list of 8-bit
  \<open>char\<close>s); \<open>uint64\<close> is \<open>64 word\<close>.
\<close>

subsection \<open>Errors, panics and results\<close>

text \<open>
  An \<open>error\<close> value is what built it: \<open>errors.New msg\<close>, \<open>fmt.Errorf format operands\<close>
  (the format string and its operands, in order), a \<open>*strconv.NumError\<close> (function,
  input and cause), or an error handed over by a package outside this file (\<open>os\<close>, the
  plugin loader), kept as its text.
  The operands that occur in this file are strings, errors and, in one place, the
  \<open>*os.File\<close> that \<open>os.Open\<close> returned next to a non-nil error, which is the nil pointer.
\<close>

datatype operand = S string | E error | NilFile
and error =
    ErrorsNew string
  | Foreign string
  | NumError string string error
  | Errorf string "operand list"

text \<open>
  A run-time panic of the Go program. The only one this file can raise is the slice
  index check: \<open>index out of range [i] with length n\<close>.
\<close>

datatype panic = IndexOutOfRange nat nat

datatype 'a outcome = Ok 'a | Err error | Panic panic

text \<open>
  \<open>fmt.Errorf\<close> returns an error with an \<open>Unwrap\<close> method when the format has a \<open>%w\<close>
  verb whose operand is an error. \<open>verbs\<close> lists the verb letters of a format string
  (\<open>%%\<close> is a literal percent sign; the formats of this file use no flags or widths).
\<close>

fun verbs :: "string \<Rightarrow> char list" where
  "verbs (c # d # cs) =
     (if c = CHR ''%'' then (if d = CHR ''%'' then verbs cs else d # verbs cs)
      else verbs (d # cs))"
| "verbs cs = []"

fun wrapped :: "char list \<Rightarrow> operand list \<Rightarrow> error option" where
  "wrapped (v # vs) (x # xs) =
     (case x of
        E e \<Rightarrow> if v = CHR ''w'' then Some e else wrapped vs xs
      | _ \<Rightarrow> wrapped vs xs)"
| "wrapped vs xs = None"

fun Unwrap :: "error \<Rightarrow> error option" where
  "Unwrap (Errorf f xs) = wrapped (verbs f) xs"
| "Unwrap (NumError fn num err) = Some err"
| "Unwrap e = None"

text \<open>
  \<open>errors.Is err target\<close>: \<open>err\<close> or an error in its \<open>Unwrap\<close> chain is \<open>target\<close>.
  \<open>chain\<close> is the \<open>Unwrap\<close> chain of an error, the error itself first.
\<close>

fun chain :: "error \<Rightarrow> error list"
  and chain_ops :: "char list \<Rightarrow> operand list \<Rightarrow> error list" where
  "chain (ErrorsNew m) = [ErrorsNew m]"
| "chain (Foreign m) = [Foreign m]"
| "chain (NumError fn num err) = NumError fn num err # chain err"
| "chain (Errorf f xs) = Errorf f xs # chain_ops (verbs f) xs"
| "chain_ops vs [] = []"
| "chain_ops vs (x # xs) =
     (case vs of
        [] \<Rightarrow> []
      | v # vs' \<Rightarrow>
          (case x of
             E e \<Rightarrow> if v = CHR ''w'' then chain e else chain_ops vs' xs
           | _ \<Rightarrow> chain_ops vs' xs))"

definition Is :: "error \<Rightarrow> error \<Rightarrow> bool" where
  "Is err target = (target \<in> set (chain err))"

subsection \<open>Package strings\<close>

definition HasPrefix :: "string \<Rightarrow> string \<Rightarrow> bool" where
  "HasPrefix s pre = (length pre \<le> length s \<and> take (length pre) s = pre)"

text \<open>
  \<open>strings.Split s sep\<close> for a one-byte separator: the substrings between the
  separators; a string without separator is returned whole, as the only element.
\<close>

fun Split :: "string \<Rightarrow> char \<Rightarrow> string list" where
  "Split [] sep = [[]]"
| "Split (c # cs) sep =
     (if c = sep then [] # Split cs sep
      else (case Split cs sep of
              [] \<Rightarrow> [[c]]
            | t # ts \<Rightarrow> (c # t) # ts))"

text \<open>
  \<open>strings.SplitN s sep n\<close> for a one-byte separator and \<open>n \<ge> 0\<close>: at most \<open>n\<close>
  substrings, the last one the unsplit remainder; \<open>n = 0\<close> gives no substring.
\<close>

fun SplitN :: "string \<Rightarrow> char \<Rightarrow> nat \<Rightarrow> string list" where
  "SplitN s sep 0 = []"
| "SplitN s sep (Suc 0) = [s]"
| "SplitN s sep (Suc (Suc n)) =
     (if sep \<in> set s
      then takeWhile (\<lambda>c. c \<noteq> sep) s # SplitN (tl (dropWhile (\<lambda>c. c \<noteq> sep) s)) sep (Suc n)
      else [s])"

fun Join :: "string list \<Rightarrow> string \<Rightarrow> string" where
  "Join [] sep = []"
| "Join [a] sep = a"
| "Join (a # b # bs) sep = a @ sep @ Join (b # bs) sep"

definition TrimPrefix :: "string \<Rightarrow> string \<Rightarrow> string" where
  "TrimPrefix s pre = (if HasPrefix s pre then drop (length pre) s else s)"

definition ContainsAny :: "string \<Rightarrow> string \<Rightarrow> bool" where
  "ContainsAny s chars = list_ex (\<lambda>c. c \<in> set chars) s"

text \<open>
  \<open>strings.IndexRune s r\<close> for an ASCII rune: the index of the first byte equal to
  \<open>r\<close>, \<open>None\<close> for Go's \<open>-1\<close>.
\<close>

definition IndexRune :: "string \<Rightarrow> char \<Rightarrow> nat option" where
  "IndexRune s r =
     (if r \<in> set s then Some (length (takeWhile (\<lambda>c. c \<noteq> r) s)) else None)"

text \<open>
  \<open>strings.TrimSpace\<close> removes the leading and the trailing white space of a string,
  as \<open>unicode.IsSpace\<close> defines it on the UTF-8 decoding: the six ASCII characters
  tab, line feed, vertical tab, form feed, carriage return and space, then U+0085,
  U+00A0, U+1680, U+2000 to U+200A, U+2028, U+2029, U+202F, U+205F and U+3000.
  \<open>space_encodings\<close> lists their UTF-8 encodings. A byte that starts no valid encoding
  decodes to U+FFFD, which is not white space. In the two trimming loops the test
  \<open>e = []\<close> is there for the termination proof only: no encoding is empty.
\<close>

definition space_encodings :: "string list" where
  "space_encodings =
     [[CHR 0x09], [CHR 0x0A], [CHR 0x0B], [CHR 0x0C], [CHR 0x0D], [CHR 0x20],
      [CHR 0xC2, CHR 0x85], [CHR 0xC2, CHR 0xA0],
      [CHR 0xE1, CHR 0x9A, CHR 0x80],
      [CHR 0xE2, CHR 0x80, CHR 0x80], [CHR 0xE2, CHR 0x80, CHR 0x81],
      [CHR 0xE2, CHR 0x80, CHR 0x82], [CHR 0xE2, CHR 0x80, CHR 0x83],
      [CHR 0xE2, CHR 0x80, CHR 0x84], [CHR 0xE2, CHR 0x80, CHR 0x85],
      [CHR 0xE2, CHR 0x80, CHR 0x86], [CHR 0xE2, CHR 0x80, CHR 0x87],
      [CHR 0xE2, CHR 0x80, CHR 0x88], [CHR 0xE2, CHR 0x80, CHR 0x89],
      [CHR 0xE2, CHR 0x80, CHR 0x8A],
      [CHR 0xE2, CHR 0x80, CHR 0xA8], [CHR 0xE2, CHR 0x80, CHR 0xA9],
      [CHR 0xE2, CHR 0x80, CHR 0xAF],
      [CHR 0xE2, CHR 0x81, CHR 0x9F],
      [CHR 0xE3, CHR 0x80, CHR 0x80]]"

definition leading_space :: "string \<Rightarrow> string option" where
  "leading_space s = List.find (\<lambda>e. HasPrefix s e) space_encodings"

function TrimLeftSpace :: "string \<Rightarrow> string" where
  "TrimLeftSpace s =
     (case leading_space s of
        None \<Rightarrow> s
      | Some e \<Rightarrow> if e = [] then s else TrimLeftSpace (drop (length e) s))"
  by pat_completeness auto
termination
proof (relation "measure length")
  show "wf (measure length)" by simp
next
  fix s :: string and e :: string
  assume "leading_space s = Some e" and "e \<noteq> []"
  then have "HasPrefix s e"
    by (auto simp: leading_space_def find_Some_iff)
  with \<open>e \<noteq> []\<close> have "s \<noteq> []"
    by (auto simp: HasPrefix_def)
  with \<open>e \<noteq> []\<close> show "(drop (length e) s, s) \<in> measure length"
    by simp
qed

declare TrimLeftSpace.simps [simp del]

definition HasSuffix :: "string \<Rightarrow> string \<Rightarrow> bool" where
  "HasSuffix s suf = (length suf \<le> length s \<and> drop (length s - length suf) s = suf)"

definition trailing_space :: "string \<Rightarrow> string option" where
  "trailing_space s = List.find (\<lambda>e. HasSuffix s e) space_encodings"

function TrimRightSpace :: "string \<Rightarrow> string" where
  "TrimRightSpace s =
     (case trailing_space s of
        None \<Rightarrow> s
      | Some e \<Rightarrow> if e = [] then s else TrimRightSpace (take (length s - length e) s))"
  by pat_completeness auto
termination
proof (relation "measure length")
  show "wf (measure length)" by simp
next
  fix s :: string and e :: string
  assume "trailing_space s = Some e" and "e \<noteq> []"
  then have "HasSuffix s e"
    by (auto simp: trailing_space_def find_Some_iff)
  with \<open>e \<noteq> []\<close> have "s \<noteq> []"
    by (auto simp: HasSuffix_def)
  with \<open>e \<noteq> []\<close> show "(take (length s - length e) s, s) \<in> measure length"
    by simp
qed

declare TrimRightSpace.simps [simp del]

definition TrimSpace :: "string \<Rightarrow> string" where
  "TrimSpace s = TrimRightSpace (TrimLeftSpace s)"

subsection \<open>Package strconv\<close>

text \<open>
  \<open>strconv.ParseUint s 10 64\<close>. The loop of the library runs on a \<open>uint64\<close>
  accumulator \<open>n\<close> and stops with a range error before a step would overflow: when
  \<open>n \<ge> cutoff\<close> (then \<open>n * 10\<close> overflows), or when \<open>n * 10 + d\<close> wraps around or exceeds
  \<open>maxVal\<close>. The model keeps \<open>n\<close> as a natural number below \<open>2 ^ 64\<close>, where the
  wrap-around is \<open>n * 10 + d > maxVal\<close>.
\<close>

definition maxVal :: nat where
  "maxVal = 2 ^ 64 - 1"

definition cutoff :: nat where
  "cutoff = maxVal div 10 + 1"

definition is_digit :: "char \<Rightarrow> bool" where
  "is_digit c = (of_char (CHR ''0'') \<le> (of_char c :: nat) \<and> (of_char c :: nat) \<le> of_char (CHR ''9''))"

definition digit_val :: "char \<Rightarrow> nat" where
  "digit_val c = of_char c - of_char (CHR ''0'')"

definition ErrSyntax :: error where
  "ErrSyntax = ErrorsNew ''invalid syntax''"

definition ErrRange :: error where
  "ErrRange = ErrorsNew ''value out of range''"

definition syntaxError :: "string \<Rightarrow> error" where
  "syntaxError s = NumError ''ParseUint'' s ErrSyntax"

definition rangeError :: "string \<Rightarrow> error" where
  "rangeError s = NumError ''ParseUint'' s ErrRange"

fun ParseUint_loop :: "string \<Rightarrow> string \<Rightarrow> nat \<Rightarrow> error + nat" where
  "ParseUint_loop s0 [] n = Inr n"
| "ParseUint_loop s0 (c # cs) n =
     (if \<not> is_digit c then Inl (syntaxError s0)
      else if n \<ge> cutoff then Inl (rangeError s0)
      else if n * 10 + digit_val c > maxVal then Inl (rangeError s0)
      else ParseUint_loop s0 cs (n * 10 + digit_val c))"

definition ParseUint :: "string \<Rightarrow> error + 64 word" where
  "ParseUint s =
     (if s = [] then Inl (syntaxError s)
      else (case ParseUint_loop s s 0 of
              Inl e \<Rightarrow> Inl e
            | Inr n \<Rightarrow> Inr (word_of_nat n)))"

text \<open>
  \<open>strconv.FormatUint v 10\<close> (and \<open>AppendUint\<close>): the decimal digits of \<open>v\<close>, most
  significant first, a single \<open>0\<close> for zero.
\<close>

definition digit_char :: "nat \<Rightarrow> char" where
  "digit_char d = ''0123456789'' ! d"

function decimal :: "nat \<Rightarrow> string" where
  "decimal n = (if n < 10 then [digit_char n] else decimal (n div 10) @ [digit_char (n mod 10)])"
  by pat_completeness auto
termination
  by (relation "measure id") auto

declare decimal.simps [simp del]

definition FormatUint :: "64 word \<Rightarrow> string" where
  "FormatUint v = decimal (unat v)"

subsection \<open>Package semver (github.com/blang/semver)\<close>

text \<open>
  Modelled from the spec: the semantic-version library that \<open>rulesfileRequirement\<close>
  calls (\<open>semver.Parse\<close>, \<open>semver.ParseTolerant\<close>, \<open>Version.String\<close>) is imported from
  \<open>github.com/blang/semver\<close> and is not a file of this repository. The spec names the
  three operations "strict semantic-version parsing", "tolerant parsing that accepts a
  bare non-negative integer or partial version string" and the canonical rendering
  \<open>MAJOR.MINOR.PATCH[-prerelease][+build]\<close>; the definitions below follow the library
  (release 3.5.1), function by function. Later releases of \<open>ParseTolerant\<close> also strip
  leading zeros from the three parts; no token used below has one.
\<close>

definition numbers :: string where
  "numbers = ''0123456789''"

definition alphas :: string where
  "alphas = ''abcdefghijklmnopqrstuvwxyzABCDEFGHIJKLMNOPQRSTUVWXYZ-''"

definition alphanum :: string where
  "alphanum = alphas @ numbers"

datatype PRVersion = PRVersion (VersionStr: string) (VersionNum: "64 word") (IsNum: bool)

record Version =
  Major :: "64 word"
  Minor :: "64 word"
  Patch :: "64 word"
  Pre :: "PRVersion list"
  Build :: "string list"

definition containsOnly :: "string \<Rightarrow> string \<Rightarrow> bool" where
  "containsOnly s set' = list_all (\<lambda>c. c \<in> set set') s"

definition hasLeadingZeroes :: "string \<Rightarrow> bool" where
  "hasLeadingZeroes s = (length s > 1 \<and> s ! 0 = CHR ''0'')"

definition NewPRVersion :: "string \<Rightarrow> error + PRVersion" where
  "NewPRVersion s =
     (if length s = 0 then Inl (ErrorsNew ''Prerelease is empty'')
      else if containsOnly s numbers then
        (if hasLeadingZeroes s
         then Inl (Errorf ''Numeric PreRelease version must not contain leading zeroes %q'' [S s])
         else (case ParseUint s of
                 Inl err \<Rightarrow> Inl err
               | Inr num \<Rightarrow> Inr (PRVersion [] num True)))
      else if containsOnly s alphanum then Inr (PRVersion s 0 False)
      else Inl (Errorf ''Invalid character(s) found in prerelease %q'' [S s]))"

definition PRVersion_String :: "PRVersion \<Rightarrow> string" where
  "PRVersion_String v = (if IsNum v then FormatUint (VersionNum v) else VersionStr v)"

text \<open>The two loops at the end of \<open>Parse\<close>: each stops at the first element in error.\<close>

fun parse_prerelease :: "string list \<Rightarrow> error + PRVersion list" where
  "parse_prerelease [] = Inr []"
| "parse_prerelease (prstr # rest) =
     (case NewPRVersion prstr of
        Inl err \<Rightarrow> Inl err
      | Inr parsedPR \<Rightarrow>
          (case parse_prerelease rest of
             Inl err \<Rightarrow> Inl err
           | Inr prs \<Rightarrow> Inr (parsedPR # prs)))"

fun parse_build :: "string list \<Rightarrow> error + string list" where
  "parse_build [] = Inr []"
| "parse_build (str # rest) =
     (if length str = 0 then Inl (ErrorsNew ''Build meta data is empty'')
      else if \<not> containsOnly str alphanum
      then Inl (Errorf ''Invalid character(s) found in build meta data %q'' [S str])
      else (case parse_build rest of
              Inl err \<Rightarrow> Inl err
            | Inr bs \<Rightarrow> Inr (str # bs)))"

text \<open>
  \<open>parse_number invalid leading s\<close> is the block \<open>Parse\<close> repeats for the major, the
  minor and the patch number: digits only, no leading zero, then \<open>strconv.ParseUint\<close>;
  \<open>invalid\<close> and \<open>leading\<close> are the formats of the first two errors.
\<close>

definition parse_number :: "string \<Rightarrow> string \<Rightarrow> string \<Rightarrow> error + 64 word" where
  "parse_number invalid leading s =
     (if \<not> containsOnly s numbers then Inl (Errorf invalid [S s])
      else if hasLeadingZeroes s then Inl (Errorf leading [S s])
      else ParseUint s)"

definition Parse :: "string \<Rightarrow> error + Version" where
  "Parse s =
     (if length s = 0 then Inl (ErrorsNew ''Version string empty'')
      else
        (case SplitN s (CHR ''.'') 3 of
           [p0, p1, p2] \<Rightarrow>
             (case parse_number ''Invalid character(s) found in major number %q''
                     ''Major number must not contain leading zeroes %q'' p0 of
                Inl err \<Rightarrow> Inl err
              | Inr major \<Rightarrow>
             (case parse_number ''Invalid character(s) found in minor number %q''
                     ''Minor number must not contain leading zeroes %q'' p1 of
                Inl err \<Rightarrow> Inl err
              | Inr minor \<Rightarrow>
                 let (build, patchStr) =
                       (case IndexRune p2 (CHR ''+'') of
                          Some buildIndex \<Rightarrow>
                            (Split (drop (buildIndex + 1) p2) (CHR ''.''), take buildIndex p2)
                        | None \<Rightarrow> ([], p2));
                     (prerelease, patchStr) =
                       (case IndexRune patchStr (CHR ''-'') of
                          Some preIndex \<Rightarrow>
                            (Split (drop (preIndex + 1) patchStr) (CHR ''.''),
                             take preIndex patchStr)
                        | None \<Rightarrow> ([], patchStr))
                 in
             (case parse_number ''Invalid character(s) found in patch number %q''
                     ''Patch number must not contain leading zeroes %q'' patchStr of
                Inl err \<Rightarrow> Inl err
              | Inr patch \<Rightarrow>
             (case parse_prerelease prerelease of
                Inl err \<Rightarrow> Inl err
              | Inr pre \<Rightarrow>
             (case parse_build build of
                Inl err \<Rightarrow> Inl err
              | Inr bld \<Rightarrow>
                  Inr \<lparr>Major = major, Minor = minor, Patch = patch,
                       Pre = pre, Build = bld\<rparr>)))))
         | _ \<Rightarrow> Inl (ErrorsNew ''No Major.Minor.Patch elements found'')))"

definition ParseTolerant :: "string \<Rightarrow> error + Version" where
  "ParseTolerant s0 =
     (let s = TrimSpace s0;
          s = TrimPrefix s ''v'';
          parts = SplitN s (CHR ''.'') 3
      in if length parts < 3
         then (if ContainsAny (last parts) ''+-''
               then Inl (ErrorsNew ''Short version cannot contain PreRelease/Build meta data'')
               else Parse (Join (parts @ replicate (3 - length parts) ''0'') ''.''))
         else Parse s)"

definition Version_String :: "Version \<Rightarrow> string" where
  "Version_String v =
     FormatUint (Major v) @ ''.'' @ FormatUint (Minor v) @ ''.'' @ FormatUint (Patch v) @
     (if length (Pre v) > 0 then ''-'' @ Join (map PRVersion_String (Pre v)) ''.'' else []) @
     (if length (Build v) > 0 then ''+'' @ Join (Build v) ''.'' else [])"

subsection \<open>The file and its line scanner\<close>

text \<open>
  \<open>bufio.Scanner\<close> with the split function \<open>bufio.ScanLines\<close>: each call of \<open>Scan\<close>
  that returns true makes the next line of the file the current token, which \<open>Text\<close>
  returns. \<open>Scan\<close> returns false at the end of the file, or earlier when reading fails
  or a line exceeds the buffer limit (\<open>bufio.ErrTooLong\<close>); only \<open>Scanner.Err\<close>, which
  the program never calls, tells the two apart. An open file is therefore the lines
  its scanner yields and the error, if any, that stops the scan after them.
\<close>

record File =
  lines :: "string list"
  read_err :: "error option"

record Scanner =
  pending :: "string list"
  stop :: "error option"
  tok :: string

definition NewScanner :: "File \<Rightarrow> Scanner" where
  "NewScanner file = \<lparr>pending = lines file, stop = read_err file, tok = []\<rparr>"

text \<open>
  After a \<open>Scan\<close> that returned false the program never reads \<open>Text\<close> (it returns on
  the empty \<open>requirement\<close>), so the token is left as it was.
\<close>

definition Scan :: "Scanner \<Rightarrow> bool \<times> Scanner" where
  "Scan sc =
     (case pending sc of
        [] \<Rightarrow> (False, sc)
      | l # ls \<Rightarrow> (True, sc\<lparr>pending := ls, tok := l\<rparr>))"

definition Text :: "Scanner \<Rightarrow> string" where
  "Text sc = tok sc"

text \<open>\<open>Scanner.Err\<close>: the error that stopped the scan, nil before and at the end of the file.\<close>

definition Scanner_Err :: "Scanner \<Rightarrow> error option" where
  "Scanner_Err sc = (case pending sc of [] \<Rightarrow> stop sc | _ \<Rightarrow> None)"

text \<open>
  Where the lines come from. \<open>bufio.ScanLines\<close> cuts the bytes of the file at each line
  feed and drops one trailing carriage return from the line (\<open>dropCR\<close>); bytes after the
  last line feed are a final line, if there are any. \<open>text_lines\<close> is this division of
  the whole content. The scanner of the program is created with the default buffer:
  a line is yielded only if it fits, with its line feed, into \<open>MaxScanTokenSize\<close>
  bytes, that is if it has fewer bytes than that before the line feed; at the first
  longer line \<open>Scan\<close> returns false and \<open>Err\<close> is \<open>ErrTooLong\<close>. \<open>bufio_lines\<close> gives
  the lines yielded and that error, and \<open>regular_file\<close> is the opened file for a
  content that is read without an I/O error.
\<close>

definition MaxScanTokenSize :: nat where
  "MaxScanTokenSize = 64 * 1024"

definition ErrTooLong :: error where
  "ErrTooLong = ErrorsNew ''bufio.Scanner: token too long''"

definition dropCR :: "string \<Rightarrow> string" where
  "dropCR data = (if 0 < length data \<and> last data = CHR 0x0D then butlast data else data)"

function text_lines :: "string \<Rightarrow> string list" where
  "text_lines data =
     (if data = [] then []
      else dropCR (takeWhile (\<lambda>c. c \<noteq> CHR 0x0A) data) #
           text_lines (drop 1 (dropWhile (\<lambda>c. c \<noteq> CHR 0x0A) data)))"
  by pat_completeness auto
termination
proof (relation "measure length")
  show "wf (measure length)" by simp
next
  fix data :: string
  assume "data \<noteq> []"
  then have "0 < length data" by simp
  moreover have "length (dropWhile (\<lambda>c. c \<noteq> CHR 0x0A) data) \<le> length data"
    by (rule length_dropWhile_le)
  ultimately have "length (dropWhile (\<lambda>c. c \<noteq> CHR 0x0A) data) - 1 < length data"
    by linarith
  then show "(drop 1 (dropWhile (\<lambda>c. c \<noteq> CHR 0x0A) data), data) \<in> measure length"
    by simp
qed

declare text_lines.simps [simp del]

function bufio_lines :: "string \<Rightarrow> string list \<times> error option" where
  "bufio_lines data =
     (if data = [] then ([], None)
      else if MaxScanTokenSize \<le> length (takeWhile (\<lambda>c. c \<noteq> CHR 0x0A) data)
      then ([], Some ErrTooLong)
      else (case bufio_lines (drop 1 (dropWhile (\<lambda>c. c \<noteq> CHR 0x0A) data)) of
              (ls, e) \<Rightarrow> (dropCR (takeWhile (\<lambda>c. c \<noteq> CHR 0x0A) data) # ls, e)))"
  by pat_completeness auto
termination
proof (relation "measure length")
  show "wf (measure length)" by simp
next
  fix data :: string
  assume "data \<noteq> []"
  then have "0 < length data" by simp
  moreover have "length (dropWhile (\<lambda>c. c \<noteq> CHR 0x0A) data) \<le> length data"
    by (rule length_dropWhile_le)
  ultimately have "length (dropWhile (\<lambda>c. c \<noteq> CHR 0x0A) data) - 1 < length data"
    by linarith
  then show "(drop 1 (dropWhile (\<lambda>c. c \<noteq> CHR 0x0A) data), data) \<in> measure length"
    by simp
qed

declare bufio_lines.simps [simp del]

definition regular_file :: "string \<Rightarrow> File" where
  "regular_file data = \<lparr>lines = fst (bufio_lines data), read_err = snd (bufio_lines data)\<rparr>"

text \<open>
  \<open>os.Open\<close> on a file system that holds one file: every other path fails to open.
\<close>

definition one_file :: "string \<Rightarrow> File \<Rightarrow> string \<Rightarrow> error + File" where
  "one_file path opened p =
     (if p = path then Inr opened
      else Inl (Foreign (''open '' @ p @ '': no such file or directory'')))"

subsection \<open>The requirement and the names of package common\<close>

record ArtifactRequirement =
  Name :: string
  Version :: string

text \<open>
  Modelled from the spec: the constants \<open>common.EngineVersionKey\<close> and
  \<open>common.PluginAPIVersion\<close> belong to package \<open>build/registry/pkg/common\<close>, which is not
  among the source files. The spec calls them "two fixed identifiers: the
  engine-version requirement key or the plugin-API-version requirement key"; they are
  fields of a parameter \<open>common\<close>, so that nothing depends on their spelling.
\<close>

record common =
  EngineVersionKey :: string
  PluginAPIVersion :: string

subsection \<open>rulesfileRequirement\<close>

definition rulesEngineAnchor :: string where
  "rulesEngineAnchor = ''- required_engine_version''"

definition ErrReqNotFound :: error where
  "ErrReqNotFound = ErrorsNew ''requirements not found''"

text \<open>
  The \<open>for fileScanner.Scan()\<close> loop (lines 55 to 60): it returns the variable
  \<open>requirement\<close> and the scanner as the loop leaves them.
\<close>

function scan_loop :: "Scanner \<Rightarrow> string \<Rightarrow> string \<times> Scanner" where
  "scan_loop fileScanner requirement =
     (case Scan fileScanner of
        (False, fileScanner') \<Rightarrow> (requirement, fileScanner')
      | (True, fileScanner') \<Rightarrow>
          if HasPrefix (Text fileScanner') rulesEngineAnchor
          then (Text fileScanner', fileScanner')
          else scan_loop fileScanner' requirement)"
  by pat_completeness auto
termination
  by (relation "measure (\<lambda>(sc, r). length (pending sc))")
     (auto simp: Scan_def split: list.splits)

declare scan_loop.simps [simp del]

text \<open>
  \<open>rulesfileRequirement\<close> (lines 41 to 87). \<open>Open\<close> is \<open>os.Open\<close>: the error, or the
  opened file. On the error branch the operand of \<open>%v\<close> is the variable \<open>file\<close>, which
  \<open>os.Open\<close> leaves nil there, and not \<open>err\<close>. \<open>tokens[1]\<close> panics when \<open>tokens\<close> has
  fewer than two elements. The deferred \<open>file.Close()\<close> has no effect on the result.
\<close>

definition rulesfileRequirement ::
  "common \<Rightarrow> (string \<Rightarrow> error + File) \<Rightarrow> string \<Rightarrow> ArtifactRequirement outcome" where
  "rulesfileRequirement K Open filePath =
     (case Open filePath of
        Inl err \<Rightarrow> Err (Errorf ''unable to open file %q: %v'' [S filePath, NilFile])
      | Inr file \<Rightarrow>
          let (requirement, fileScanner) = scan_loop (NewScanner file) []
          in if requirement = []
             then Err (Errorf ''requirements for rulesfile %q: %w'' [S filePath, E ErrReqNotFound])
             else
               let tokens = Split (Text fileScanner) (CHR '':'')
               in if length tokens \<le> 1 then Panic (IndexOutOfRange 1 (length tokens))
                  else
                    (case Parse (tokens ! 1) of
                       Inr reqVer \<Rightarrow>
                         Ok \<lparr>Name = EngineVersionKey K, Version = Version_String reqVer\<rparr>
                     | Inl err \<Rightarrow>
                         (case ParseTolerant (tokens ! 1) of
                            Inl err \<Rightarrow>
                              Err (Errorf ''unable to parse requirement %q: expected a numeric value or a valid semver string''
                                     [S (tokens ! 1)])
                          | Inr reqVer \<Rightarrow>
                              Ok \<lparr>Name = EngineVersionKey K,
                                  Version = Version_String
                                    \<lparr>Major = 0, Minor = Major reqVer, Patch = 0,
                                     Pre = [], Build = []\<rparr>\<rparr>)))"

subsection \<open>pluginRequirement\<close>

text \<open>
  The plugin loader (\<open>github.com/falcosecurity/plugin-sdk-go/pkg/loader\<close>) is outside
  this repository: \<open>NewPlugin\<close> is a parameter, returning the error or the loaded
  plugin, of which only \<open>Info().RequiredAPIVersion\<close> is read.
\<close>

record Info =
  RequiredAPIVersion :: string

datatype Plugin = Plugin (Info: Info)

definition pluginRequirement ::
  "common \<Rightarrow> (string \<Rightarrow> error + Plugin) \<Rightarrow> string \<Rightarrow> ArtifactRequirement outcome" where
  "pluginRequirement K NewPlugin filePath =
     (case NewPlugin filePath of
        Inl err \<Rightarrow> Err (Errorf ''unable to open plugin %q: %w'' [S filePath, E err])
      | Inr plugin \<Rightarrow>
          Ok \<lparr>Name = PluginAPIVersion K, Version = RequiredAPIVersion (Info plugin)\<rparr>)"

section \<open>Evaluation rules\<close>

lemma SplitN_3 [simp]:
  "SplitN s sep 3 =
     (if sep \<in> set s
      then takeWhile (\<lambda>c. c \<noteq> sep) s # SplitN (tl (dropWhile (\<lambda>c. c \<noteq> sep) s)) sep 2
      else [s])"
  by (simp add: numeral_3_eq_3 numeral_2_eq_2)

lemma SplitN_2 [simp]:
  "SplitN s sep 2 =
     (if sep \<in> set s
      then [takeWhile (\<lambda>c. c \<noteq> sep) s, tl (dropWhile (\<lambda>c. c \<noteq> sep) s)]
      else [s])"
  by (simp add: numeral_2_eq_2)

lemma decimal_small: "n < 10 \<Longrightarrow> decimal n = [digit_char n]"
  by (subst decimal.simps) simp

lemma replicate_2: "replicate 2 x = [x, x]"
  by (simp add: numeral_2_eq_2)

lemmas eval_defs =
  Parse_def ParseTolerant_def TrimSpace_def TrimLeftSpace.simps TrimRightSpace.simps
  leading_space_def trailing_space_def space_encodings_def HasPrefix_def HasSuffix_def
  TrimPrefix_def ContainsAny_def IndexRune_def parse_number_def containsOnly_def numbers_def
  hasLeadingZeroes_def ParseUint_def is_digit_def digit_val_def maxVal_def cutoff_def
  Version_String_def FormatUint_def decimal_small digit_char_def replicate_2

section \<open>The scan loop\<close>

lemma scan_loop_found:
  "list_all (\<lambda>x. \<not> HasPrefix x rulesEngineAnchor) pre \<Longrightarrow>
   HasPrefix l rulesEngineAnchor \<Longrightarrow>
   scan_loop \<lparr>pending = pre @ l # rest, stop = e, tok = t\<rparr> r =
     (l, \<lparr>pending = rest, stop = e, tok = l\<rparr>)"
proof (induction pre arbitrary: t)
  case Nil
  then show ?case by (subst scan_loop.simps) (simp add: Scan_def Text_def)
next
  case (Cons x pre)
  then show ?case by (subst scan_loop.simps) (simp add: Scan_def Text_def)
qed

lemma scan_loop_none:
  "list_all (\<lambda>x. \<not> HasPrefix x rulesEngineAnchor) ls \<Longrightarrow>
   fst (scan_loop \<lparr>pending = ls, stop = e, tok = t\<rparr> r) = r"
proof (induction ls arbitrary: t)
  case Nil
  then show ?case by (subst scan_loop.simps) (simp add: Scan_def)
next
  case (Cons x ls)
  then show ?case by (subst scan_loop.simps) (simp add: Scan_def Text_def)
qed

lemma anchor_nonempty: "HasPrefix l rulesEngineAnchor \<Longrightarrow> l \<noteq> []"
  by (auto simp: HasPrefix_def rulesEngineAnchor_def)

text \<open>
  What \<open>rulesfileRequirement\<close> computes once the loop has stopped at the line \<open>l\<close>, the
  first one with the anchor prefix: lines 69 to 86 on that line.
\<close>

lemma rulesfile_first_anchor:
  assumes "Open filePath = Inr opened"
    and "lines opened = pre @ l # rest"
    and "list_all (\<lambda>x. \<not> HasPrefix x rulesEngineAnchor) pre"
    and "HasPrefix l rulesEngineAnchor"
  shows "rulesfileRequirement K Open filePath =
     (let tokens = Split l (CHR '':'')
      in if length tokens \<le> 1 then Panic (IndexOutOfRange 1 (length tokens))
         else
           (case Parse (tokens ! 1) of
              Inr reqVer \<Rightarrow> Ok \<lparr>Name = EngineVersionKey K, Version = Version_String reqVer\<rparr>
            | Inl err \<Rightarrow>
                (case ParseTolerant (tokens ! 1) of
                   Inl err \<Rightarrow>
                     Err (Errorf ''unable to parse requirement %q: expected a numeric value or a valid semver string''
                            [S (tokens ! 1)])
                 | Inr reqVer \<Rightarrow>
                     Ok \<lparr>Name = EngineVersionKey K,
                         Version = Version_String
                           \<lparr>Major = 0, Minor = Major reqVer, Patch = 0,
                            Pre = [], Build = []\<rparr>\<rparr>)))"
  using assms scan_loop_found[OF assms(3,4), of rest "read_err opened" "[]" "[]"]
    anchor_nonempty[OF assms(4)]
  by (simp add: rulesfileRequirement_def NewScanner_def Text_def)

lemma rulesfile_no_anchor:
  assumes "Open filePath = Inr opened"
    and "list_all (\<lambda>x. \<not> HasPrefix x rulesEngineAnchor) (lines opened)"
  shows "rulesfileRequirement K Open filePath =
     Err (Errorf ''requirements for rulesfile %q: %w'' [S filePath, E ErrReqNotFound])"
proof -
  obtain r sc where rs: "scan_loop (NewScanner opened) [] = (r, sc)"
    by (cases "scan_loop (NewScanner opened) []")
  with scan_loop_none[OF assms(2), of "read_err opened" "[]" "[]"] have "r = []"
    by (simp add: NewScanner_def)
  with rs assms(1) show ?thesis
    by (simp add: rulesfileRequirement_def)
qed

lemma Split_no_sep: "sep \<notin> set s \<Longrightarrow> Split s sep = [s]"
  by (induction s) auto

lemma first_anchor_split:
  assumes "\<not> list_all (\<lambda>x. \<not> HasPrefix x rulesEngineAnchor) ls"
  shows "\<exists>pre l rest. ls = pre @ l # rest \<and>
           list_all (\<lambda>x. \<not> HasPrefix x rulesEngineAnchor) pre \<and> HasPrefix l rulesEngineAnchor"
proof -
  from assms have "\<exists>x\<in>set ls. HasPrefix x rulesEngineAnchor"
    by (simp add: list_all_iff)
  from split_list_first_prop[OF this] show ?thesis
    by (auto simp: list_all_iff)
qed

text \<open>The result depends on the opened file through the lines its scanner yields only.\<close>

lemma rulesfile_depends_on_lines:
  assumes "Open filePath = Inr opened"
    and "Open' filePath = Inr opened'"
    and "lines opened' = lines opened"
  shows "rulesfileRequirement K Open' filePath = rulesfileRequirement K Open filePath"
proof (cases "list_all (\<lambda>x. \<not> HasPrefix x rulesEngineAnchor) (lines opened)")
  case True
  then show ?thesis
    using rulesfile_no_anchor[where Open = Open and filePath = filePath and K = K, OF assms(1)]
      rulesfile_no_anchor[where Open = Open' and filePath = filePath and K = K, OF assms(2)]
      assms(3)
    by simp
next
  case False
  from first_anchor_split[OF this] obtain pre l rest
    where split: "lines opened = pre @ l # rest"
      and pre: "list_all (\<lambda>x. \<not> HasPrefix x rulesEngineAnchor) pre"
      and l: "HasPrefix l rulesEngineAnchor"
    by blast
  from split assms(3) have split': "lines opened' = pre @ l # rest"
    by simp
  show ?thesis
    using rulesfile_first_anchor[where Open = Open and filePath = filePath and K = K,
        OF assms(1) split pre l]
      rulesfile_first_anchor[where Open = Open' and filePath = filePath and K = K,
        OF assms(2) split' pre l]
    by simp
qed

section \<open>Decimal numbers: \<open>ParseUint\<close> and \<open>FormatUint\<close>\<close>

lemma is_digit_iff: "is_digit c \<longleftrightarrow> c \<in> set numbers"
proof
  assume "is_digit c"
  then have "(of_char c :: nat) \<in> {48, 49, 50, 51, 52, 53, 54, 55, 56, 57}"
    by (simp add: is_digit_def) arith
  then have "(of_char c :: nat) \<in> of_char ` set numbers"
    by (simp add: numbers_def)
  then show "c \<in> set numbers"
    by (auto simp: of_char_eq_iff)
next
  assume "c \<in> set numbers"
  then show "is_digit c"
    by (auto simp: numbers_def is_digit_def)
qed

lemma digit_char_props:
  assumes "d < 10"
  shows "is_digit (digit_char d)" and "digit_val (digit_char d) = d"
proof -
  from assms have "d \<in> {0, 1, 2, 3, 4, 5, 6, 7, 8, 9}" by simp arith
  then show "is_digit (digit_char d)" and "digit_val (digit_char d) = d"
    by (auto simp: digit_char_def is_digit_def digit_val_def)
qed

lemma digit_val_less: "is_digit c \<Longrightarrow> digit_val c < 10"
  by (auto simp: is_digit_def digit_val_def)

lemma digit_char_val: "is_digit c \<Longrightarrow> digit_char (digit_val c) = c"
  by (auto simp: is_digit_iff numbers_def digit_char_def digit_val_def)

lemma decimal_step: "0 < n \<Longrightarrow> d < 10 \<Longrightarrow> decimal (n * 10 + d) = decimal n @ [digit_char d]"
  by (subst decimal.simps) simp

lemma ParseUint_loop_decimal:
  "ParseUint_loop s0 cs n = Inr m \<Longrightarrow> 0 < n \<Longrightarrow> decimal m = decimal n @ cs"
proof (induction cs arbitrary: n)
  case Nil
  then show ?case by simp
next
  case (Cons c cs)
  from Cons.prems have dig: "is_digit c" and rec: "ParseUint_loop s0 cs (n * 10 + digit_val c) = Inr m"
    by (auto split: if_splits)
  from Cons.IH[OF rec] Cons.prems(2) have "decimal m = decimal (n * 10 + digit_val c) @ cs"
    by simp
  also have "decimal (n * 10 + digit_val c) = decimal n @ [c]"
    using decimal_step[OF Cons.prems(2) digit_val_less[OF dig]] digit_char_val[OF dig] by simp
  finally show ?case by simp
qed

lemma ParseUint_loop_bound:
  "ParseUint_loop s0 cs n = Inr m \<Longrightarrow> n \<le> maxVal \<Longrightarrow> m \<le> maxVal"
  by (induction cs arbitrary: n) (auto split: if_splits)

lemma ParseUint_loop_Nil_zero:
  "ParseUint_loop s0 cs 0 = Inr m \<Longrightarrow> cs \<noteq> [] \<Longrightarrow> \<not> hasLeadingZeroes cs \<Longrightarrow> decimal m = cs"
proof (cases cs)
  case Nil
  assume "cs \<noteq> []" with Nil show ?thesis by simp
next
  case (Cons c cs')
  assume loop: "ParseUint_loop s0 cs 0 = Inr m" and nlz: "\<not> hasLeadingZeroes cs"
  from loop Cons have dig: "is_digit c" and rec: "ParseUint_loop s0 cs' (digit_val c) = Inr m"
    by (auto split: if_splits)
  show ?thesis
  proof (cases "digit_val c = 0")
    case True
    with digit_char_val[OF dig] have "c = CHR ''0''" by (simp add: digit_char_def)
    with nlz Cons have "cs' = []" by (simp add: hasLeadingZeroes_def)
    with rec True Cons \<open>c = CHR ''0''\<close> show ?thesis
      by (simp add: decimal_small digit_char_def)
  next
    case False
    then have "0 < digit_val c" by simp
    from ParseUint_loop_decimal[OF rec this] digit_val_less[OF dig] digit_char_val[OF dig] Cons
    show ?thesis by (simp add: decimal_small)
  qed
qed

lemma unat_word_of_nat_maxVal: "m \<le> maxVal \<Longrightarrow> unat (word_of_nat m :: 64 word) = m"
  by (simp add: maxVal_def unat_of_nat)

lemma ParseUint_FormatUint:
  assumes "ParseUint s = Inr w" and "\<not> hasLeadingZeroes s"
  shows "FormatUint w = s"
proof -
  from assms(1) obtain m where ne: "s \<noteq> []" and loop: "ParseUint_loop s s 0 = Inr m"
    and w: "w = word_of_nat m"
    by (auto simp: ParseUint_def split: if_splits sum.splits)
  from ParseUint_loop_bound[OF loop] have "m \<le> maxVal" by simp
  with w have "unat w = m" by (simp add: unat_word_of_nat_maxVal)
  with ParseUint_loop_Nil_zero[OF loop ne assms(2)] show ?thesis
    by (simp add: FormatUint_def)
qed


lemma ParseUint_loop_snoc:
  "ParseUint_loop s0 (cs @ [c]) n =
     (case ParseUint_loop s0 cs n of Inl e \<Rightarrow> Inl e | Inr m \<Rightarrow> ParseUint_loop s0 [c] m)"
  by (induction cs arbitrary: n) auto

lemma ParseUint_loop_of_decimal: "n \<le> maxVal \<Longrightarrow> ParseUint_loop s0 (decimal n) 0 = Inr n"
proof (induction n rule: decimal.induct)
  case (1 n)
  show ?case
  proof (cases "n < 10")
    case True
    with "1.prems" digit_char_props[OF True] show ?thesis
      by (simp add: decimal_small cutoff_def maxVal_def)
  next
    case False
    have less: "n mod 10 < 10" by simp
    from "1.prems" have "n div 10 \<le> maxVal" by simp
    with "1.IH" False have rec: "ParseUint_loop s0 (decimal (n div 10)) 0 = Inr (n div 10)"
      by simp
    from "1.prems" have "n div 10 < cutoff"
      by (simp add: cutoff_def maxVal_def)
    moreover have "n div 10 * 10 + n mod 10 = n" by simp
    ultimately have "ParseUint_loop s0 [digit_char (n mod 10)] (n div 10) = Inr n"
      using digit_char_props[OF less] "1.prems" by simp
    with rec False show ?thesis
      by (subst decimal.simps) (simp add: ParseUint_loop_snoc)
  qed
qed

lemma decimal_digits: "list_all is_digit (decimal n)"
proof (induction n rule: decimal.induct)
  case (1 n)
  show ?case
  proof (cases "n < 10")
    case True
    then show ?thesis by (simp add: decimal_small digit_char_props)
  next
    case False
    with "1.IH" show ?thesis
      by (subst decimal.simps) (simp add: digit_char_props)
  qed
qed

lemma decimal_nonempty: "decimal n \<noteq> []"
  by (subst decimal.simps) simp

lemma decimal_hd: "0 < n \<Longrightarrow> hd (decimal n) \<noteq> CHR ''0''"
proof (induction n rule: decimal.induct)
  case (1 n)
  show ?case
  proof (cases "n < 10")
    case True
    with "1.prems" have "n \<in> {1, 2, 3, 4, 5, 6, 7, 8, 9}" by simp arith
    then show ?thesis by (auto simp: decimal_small digit_char_def)
  next
    case False
    then have "0 < n div 10" by simp
    with "1.IH" False have "hd (decimal (n div 10)) \<noteq> CHR ''0''" by simp
    with False show ?thesis
      by (subst decimal.simps) (simp add: decimal_nonempty)
  qed
qed

lemma decimal_no_leading_zeroes: "\<not> hasLeadingZeroes (decimal n)"
proof (cases "n = 0")
  case True
  then show ?thesis by (simp add: decimal_small hasLeadingZeroes_def)
next
  case False
  then have "hd (decimal n) \<noteq> CHR ''0''" by (simp add: decimal_hd)
  then show ?thesis
    using decimal_nonempty[of n] by (simp add: hasLeadingZeroes_def hd_conv_nth)
qed

lemma containsOnly_numbers: "containsOnly s numbers \<longleftrightarrow> list_all is_digit s"
  by (simp add: containsOnly_def list_all_iff is_digit_iff)

lemma parse_number_FormatUint: "parse_number a b (FormatUint w) = Inr w"
proof -
  have "unat w \<le> maxVal"
    using unsigned_less[of w, where 'a = nat] by (simp add: maxVal_def)
  then have "ParseUint (decimal (unat w)) = Inr w"
    by (simp add: ParseUint_def decimal_nonempty ParseUint_loop_of_decimal)
  then show ?thesis
    by (simp add: parse_number_def FormatUint_def containsOnly_numbers decimal_digits
        decimal_no_leading_zeroes)
qed

lemma parse_number_String: "parse_number a b s = Inr w \<Longrightarrow> FormatUint w = s"
  by (auto simp: parse_number_def split: if_splits intro: ParseUint_FormatUint)

lemma decimal_no_char: "\<not> is_digit c \<Longrightarrow> c \<notin> set (decimal n)"
  using decimal_digits[of n] by (auto simp: list_all_iff)


section \<open>Splitting and joining\<close>

lemma Split_nonempty: "Split s c \<noteq> []"
  by (induction s) (auto split: list.splits)

lemma Join_Cons_Cons: "Join ((x # t) # ts) sep = x # Join (t # ts) sep"
  by (cases ts) auto

lemma Join_Split: "Join (Split s c) [c] = s"
proof (induction s)
  case Nil
  then show ?case by simp
next
  case (Cons x xs)
  show ?case
  proof (cases "x = c")
    case True
    with Cons show ?thesis
      using Split_nonempty[of xs c] by (cases "Split xs c") auto
  next
    case False
    with Cons show ?thesis
      using Split_nonempty[of xs c] by (cases "Split xs c") (auto simp: Join_Cons_Cons)
  qed
qed

lemma split_at_first: "c \<in> set s \<Longrightarrow>
    s = takeWhile (\<lambda>x. x \<noteq> c) s @ c # tl (dropWhile (\<lambda>x. x \<noteq> c) s)"
proof -
  assume "c \<in> set s"
  then have "dropWhile (\<lambda>x. x \<noteq> c) s \<noteq> []" by auto
  then have "dropWhile (\<lambda>x. x \<noteq> c) s = c # tl (dropWhile (\<lambda>x. x \<noteq> c) s)"
    using hd_dropWhile[of "\<lambda>x. x \<noteq> c" s] by (cases "dropWhile (\<lambda>x. x \<noteq> c) s") auto
  then show ?thesis
    using takeWhile_dropWhile_id[of "\<lambda>x. x \<noteq> c" s] by simp
qed

lemma SplitN_3_eq:
  assumes "SplitN s c 3 = [p0, p1, p2]"
  shows "s = p0 @ c # p1 @ c # p2"
proof -
  from assms have in1: "c \<in> set s" and p0: "p0 = takeWhile (\<lambda>x. x \<noteq> c) s"
    and rest: "SplitN (tl (dropWhile (\<lambda>x. x \<noteq> c) s)) c 2 = [p1, p2]"
    by (auto split: if_splits)
  let ?r = "tl (dropWhile (\<lambda>x. x \<noteq> c) s)"
  from rest have in2: "c \<in> set ?r" and p1: "p1 = takeWhile (\<lambda>x. x \<noteq> c) ?r"
    and p2: "p2 = tl (dropWhile (\<lambda>x. x \<noteq> c) ?r)"
    by (auto split: if_splits)
  from split_at_first[OF in1] split_at_first[OF in2] p0 p1 p2 show ?thesis
    by simp
qed

lemma SplitN_3_parts:
  assumes "c \<notin> set a" and "c \<notin> set b"
  shows "SplitN (a @ c # b @ c # r) c 3 = [a, b, r]"
proof -
  have t: "takeWhile (\<lambda>x. x \<noteq> c) (u @ c # w) = u"
    and d: "dropWhile (\<lambda>x. x \<noteq> c) (u @ c # w) = c # w" if "c \<notin> set u" for u w
    using that by (auto simp: takeWhile_tail dropWhile_append3)
  show ?thesis
    using t[OF assms(1)] d[OF assms(1)] t[OF assms(2)] d[OF assms(2)]
    by simp
qed

lemma IndexRune_Some:
  assumes "IndexRune s r = Some i"
  shows "s = take i s @ r # drop (i + 1) s"
proof -
  from assms have mem: "r \<in> set s" and i: "i = length (takeWhile (\<lambda>c. c \<noteq> r) s)"
    by (auto simp: IndexRune_def split: if_splits)
  have "take i s = takeWhile (\<lambda>c. c \<noteq> r) s"
    unfolding i by (rule takeWhile_eq_take[symmetric])
  moreover have "dropWhile (\<lambda>c. c \<noteq> r) s = drop i s"
    unfolding i by (rule dropWhile_eq_drop)
  moreover have "tl (drop i s) = drop (i + 1) s"
    by (simp add: drop_Suc tl_drop)
  ultimately show ?thesis
    using split_at_first[OF mem] by simp
qed

lemma cut_at:
  assumes "(case IndexRune p c of
              Some i \<Rightarrow> (Split (drop (i + 1) p) (CHR ''.''), take i p)
            | None \<Rightarrow> ([], p)) = (parts, front)"
  shows "p = front @ (if 0 < length parts then c # Join parts ''.'' else [])"
proof (cases "IndexRune p c")
  case None
  with assms show ?thesis by simp
next
  case (Some i)
  with assms have "parts = Split (drop (i + 1) p) (CHR ''.'')" and "front = take i p"
    by simp_all
  with IndexRune_Some[OF Some] Split_nonempty[of "drop (i + 1) p" "CHR ''.''"]
  show ?thesis by (simp add: Join_Split)
qed

section \<open>A version that \<open>Parse\<close> accepts is rendered as the string it was read from\<close>

lemma NewPRVersion_String: "NewPRVersion p = Inr v \<Longrightarrow> PRVersion_String v = p"
  by (auto simp: NewPRVersion_def PRVersion_String_def split: if_splits sum.splits
      intro: ParseUint_FormatUint)

lemma parse_prerelease_String:
  "parse_prerelease ps = Inr vs \<Longrightarrow> map PRVersion_String vs = ps"
  by (induction ps arbitrary: vs) (auto split: sum.splits dest: NewPRVersion_String)

lemma parse_build_same: "parse_build bs = Inr bs' \<Longrightarrow> bs' = bs"
  by (induction bs arbitrary: bs') (auto split: if_splits sum.splits)


lemma Parse_String:
  assumes "Parse s = Inr v"
  shows "Version_String v = s"
proof -
  from assms obtain p0 p1 p2 where split: "SplitN s (CHR ''.'') 3 = [p0, p1, p2]"
    by (auto simp: Parse_def simp del: SplitN_3 split: if_splits list.splits)
  obtain build patchStr where cut1:
    "(case IndexRune p2 (CHR ''+'') of
        Some i \<Rightarrow> (Split (drop (i + 1) p2) (CHR ''.''), take i p2)
      | None \<Rightarrow> ([], p2)) = (build, patchStr)"
    by fastforce
  obtain prerelease patchStr' where cut2:
    "(case IndexRune patchStr (CHR ''-'') of
        Some i \<Rightarrow> (Split (drop (i + 1) patchStr) (CHR ''.''), take i patchStr)
      | None \<Rightarrow> ([], patchStr)) = (prerelease, patchStr')"
    by fastforce
  from assms split cut1 cut2 obtain major minor patch pre bld
    where major: "FormatUint major = p0" and minor: "FormatUint minor = p1"
      and patch: "FormatUint patch = patchStr'"
      and pre: "parse_prerelease prerelease = Inr pre"
      and bld: "parse_build build = Inr bld"
      and v: "v = \<lparr>Major = major, Minor = minor, Patch = patch, Pre = pre, Build = bld\<rparr>"
    by (auto simp: Parse_def simp del: SplitN_3 split: if_splits sum.splits
        dest!: parse_number_String)
  from parse_prerelease_String[OF pre] have pre_str: "map PRVersion_String pre = prerelease" .
  then have pre_len: "length pre = length prerelease"
    by (metis length_map)
  from parse_build_same[OF bld] have bld_same: "bld = build" .
  have "s = p0 @ CHR ''.'' # p1 @ CHR ''.'' # p2"
    by (rule SplitN_3_eq[OF split])
  also have "p2 = patchStr @ (if 0 < length build then CHR ''+'' # Join build ''.'' else [])"
    by (rule cut_at[OF cut1])
  also have "patchStr =
      patchStr' @ (if 0 < length prerelease then CHR ''-'' # Join prerelease ''.'' else [])"
    by (rule cut_at[OF cut2])
  finally show ?thesis
    by (simp add: Version_String_def v major minor patch pre_str pre_len bld_same)
qed

lemma FormatUint_free: "\<not> is_digit c \<Longrightarrow> c \<notin> set (FormatUint w)"
  by (simp add: FormatUint_def decimal_no_char)

lemma IndexRune_None: "r \<notin> set s \<Longrightarrow> IndexRune s r = None"
  by (simp add: IndexRune_def)

lemma FormatUint_nonempty: "FormatUint w \<noteq> []"
  by (simp add: FormatUint_def decimal_nonempty)

lemma Parse_plain:
  "Parse (FormatUint a @ ''.'' @ FormatUint b @ ''.'' @ FormatUint c) =
     Inr \<lparr>Major = a, Minor = b, Patch = c, Pre = [], Build = []\<rparr>"
proof -
  have dot: "CHR ''.'' \<notin> set (FormatUint w)" and plus: "CHR ''+'' \<notin> set (FormatUint w)"
    and minus: "CHR ''-'' \<notin> set (FormatUint w)" for w
    by (simp_all add: FormatUint_free is_digit_def)
  have "SplitN (FormatUint a @ CHR ''.'' # FormatUint b @ CHR ''.'' # FormatUint c) (CHR ''.'') 3 =
      [FormatUint a, FormatUint b, FormatUint c]"
    by (rule SplitN_3_parts[OF dot dot])
  then show ?thesis
    by (simp add: Parse_def FormatUint_nonempty parse_number_FormatUint
        IndexRune_None[OF plus] IndexRune_None[OF minus] del: SplitN_3)
qed

lemma Version_String_plain:
  "Version_String \<lparr>Major = a, Minor = b, Patch = c, Pre = [], Build = []\<rparr> =
     FormatUint a @ ''.'' @ FormatUint b @ ''.'' @ FormatUint c"
  by (simp add: Version_String_def)

section \<open>From the bytes of a file to the lines the scanner yields\<close>

lemma takeWhile_line:
  "CHR 0x0A \<notin> set l \<Longrightarrow> takeWhile (\<lambda>c. c \<noteq> CHR 0x0A) (l @ CHR 0x0A # rest) = l"
  by (auto simp: takeWhile_tail)

lemma dropWhile_line:
  "CHR 0x0A \<notin> set l \<Longrightarrow> dropWhile (\<lambda>c. c \<noteq> CHR 0x0A) (l @ CHR 0x0A # rest) = CHR 0x0A # rest"
  by (auto simp: dropWhile_append3)

lemma text_lines_Nil: "text_lines [] = []"
  by (subst text_lines.simps) simp

lemma text_lines_line:
  "CHR 0x0A \<notin> set l \<Longrightarrow> text_lines (l @ CHR 0x0A # rest) = dropCR l # text_lines rest"
  by (subst text_lines.simps) (simp add: takeWhile_line dropWhile_line)

lemma bufio_lines_Nil: "bufio_lines [] = ([], None)"
  by (subst bufio_lines.simps) simp

lemma bufio_lines_line:
  "CHR 0x0A \<notin> set l \<Longrightarrow> length l < MaxScanTokenSize \<Longrightarrow>
   bufio_lines (l @ CHR 0x0A # rest) =
     (dropCR l # fst (bufio_lines rest), snd (bufio_lines rest))"
  by (subst bufio_lines.simps) (simp add: takeWhile_line dropWhile_line split: prod.splits)

lemma bufio_lines_too_long:
  "CHR 0x0A \<notin> set l \<Longrightarrow> MaxScanTokenSize \<le> length l \<Longrightarrow>
   bufio_lines (l @ CHR 0x0A # rest) = ([], Some ErrTooLong)"
  by (subst bufio_lines.simps) (simp add: takeWhile_line)

text \<open>
  The scanner yields the lines of the file from the first one on, and all of them
  when it stops without an error.
\<close>

lemma bufio_lines_prefix: "\<exists>rest. text_lines data = fst (bufio_lines data) @ rest"
proof (induction data rule: bufio_lines.induct)
  case (1 data)
  show ?case
  proof (cases "data = [] \<or> MaxScanTokenSize \<le> length (takeWhile (\<lambda>c. c \<noteq> CHR 0x0A) data)")
    case True
    then show ?thesis
      by (subst bufio_lines.simps) auto
  next
    case False
    with "1.IH" obtain rest where
      "text_lines (drop 1 (dropWhile (\<lambda>c. c \<noteq> CHR 0x0A) data)) =
         fst (bufio_lines (drop 1 (dropWhile (\<lambda>c. c \<noteq> CHR 0x0A) data))) @ rest"
      by auto
    with False show ?thesis
      by (subst text_lines.simps, subst bufio_lines.simps) (simp split: prod.splits)
  qed
qed

lemma bufio_lines_complete:
  "snd (bufio_lines data) = None \<Longrightarrow> fst (bufio_lines data) = text_lines data"
proof (induction data rule: bufio_lines.induct)
  case (1 data)
  show ?case
  proof (cases "data = []")
    case True
    then show ?thesis by (simp add: bufio_lines_Nil text_lines_Nil)
  next
    case False
    from "1.prems" False have short:
      "\<not> MaxScanTokenSize \<le> length (takeWhile (\<lambda>c. c \<noteq> CHR 0x0A) data)"
      by (subst (asm) bufio_lines.simps) (auto split: if_splits)
    with "1.prems" False
    have "snd (bufio_lines (drop 1 (dropWhile (\<lambda>c. c \<noteq> CHR 0x0A) data))) = None"
      by (subst (asm) bufio_lines.simps) (simp split: prod.splits)
    with "1.IH" False short
    have "fst (bufio_lines (drop 1 (dropWhile (\<lambda>c. c \<noteq> CHR 0x0A) data))) =
        text_lines (drop 1 (dropWhile (\<lambda>c. c \<noteq> CHR 0x0A) data))"
      by simp
    with False short show ?thesis
      by (subst text_lines.simps, subst bufio_lines.simps) (auto split: prod.splits)
  qed
qed

lemma HasPrefix_hd: "HasPrefix s pre \<Longrightarrow> pre \<noteq> [] \<Longrightarrow> hd s = hd pre"
  by (cases s; cases pre) (auto simp: HasPrefix_def)

text \<open>
  A file that begins with a line of \<open>MaxScanTokenSize\<close> letters: the scanner yields
  nothing and stops with \<open>ErrTooLong\<close>; the long line has no anchor prefix.
\<close>

lemma long_line_file:
  "regular_file (replicate 65536 (CHR ''a'') @ CHR 0x0A # rest) =
     \<lparr>lines = [], read_err = Some ErrTooLong\<rparr>"
  by (simp add: regular_file_def bufio_lines_too_long MaxScanTokenSize_def)

lemma long_line_text:
  "text_lines (replicate 65536 (CHR ''a'') @ CHR 0x0A # rest) =
     replicate 65536 (CHR ''a'') # text_lines rest"
  by (simp add: text_lines_line dropCR_def)

lemma long_line_no_anchor: "\<not> HasPrefix (replicate 65536 (CHR ''a'')) rulesEngineAnchor"
proof
  assume "HasPrefix (replicate 65536 (CHR ''a'')) rulesEngineAnchor"
  from HasPrefix_hd[OF this] show False
    by (simp add: rulesEngineAnchor_def)
qed

lemma last_line_text:
  "CHR 0x0A \<notin> set l \<Longrightarrow> text_lines (l @ [CHR 0x0A]) = [dropCR l]"
  by (simp add: text_lines_line text_lines_Nil)

section \<open>The claims\<close>

text \<open>
  C1, amended. For every rules file in which the scanner yields the line
  \<open>- required_engine_version: 3\<close> as the first line with the anchor prefix (no earlier
  line reaches the scanner's limit of 64 KiB and no read fails before it),
  \<open>rulesfileRequirement\<close> succeeds and returns the requirement named
  \<open>EngineVersionKey\<close> with version \<open>0.3.0\<close>: strict parsing rejects the token, tolerant
  parsing reads it as major version 3, and that major component becomes the minor
  component of the result, with major and patch 0.
\<close>

theorem rulesfile_bare_integer:
  assumes "Open filePath = Inr opened"
    and "lines opened = pre @ ''- required_engine_version: 3'' # rest"
    and "list_all (\<lambda>x. \<not> HasPrefix x rulesEngineAnchor) pre"
  shows "rulesfileRequirement K Open filePath =
           Ok \<lparr>Name = EngineVersionKey K, Version = ''0.3.0''\<rparr> \<and>
         isl (Parse '' 3'') \<and>
         ParseTolerant '' 3'' = Inr \<lparr>Major = 3, Minor = 0, Patch = 0, Pre = [], Build = []\<rparr>"
proof -
  have strict: "Parse '' 3'' = Inl (ErrorsNew ''No Major.Minor.Patch elements found'')"
    by (simp add: eval_defs)
  have tolerant:
    "ParseTolerant '' 3'' = Inr \<lparr>Major = 3, Minor = 0, Patch = 0, Pre = [], Build = []\<rparr>"
    by (simp add: eval_defs)
  have shown: "Version_String \<lparr>Major = 0, Minor = 3, Patch = 0, Pre = [], Build = []\<rparr> = ''0.3.0''"
    by (simp add: eval_defs)
  have anchor: "HasPrefix ''- required_engine_version: 3'' rulesEngineAnchor"
    by (simp add: HasPrefix_def rulesEngineAnchor_def)
  have "rulesfileRequirement K Open filePath =
          Ok \<lparr>Name = EngineVersionKey K, Version = ''0.3.0''\<rparr>"
    by (simp add: rulesfile_first_anchor[where Open = Open and filePath = filePath, OF assms anchor]
        strict tolerant shown)
  with strict tolerant show ?thesis by simp
qed

theorem rulesfile_bare_integer_witness:
  "rulesfileRequirement \<lparr>EngineVersionKey = ''engine_version_semver'', PluginAPIVersion = ''plugin_api_version''\<rparr>
     (\<lambda>p. Inr \<lparr>lines = [''# Falco rules'', [], ''- required_engine_version: 3'',
                          ''- rule: shell in container''], read_err = None\<rparr>)
     ''rules/falco_rules.yaml'' =
   Ok \<lparr>Name = ''engine_version_semver'', Version = ''0.3.0''\<rparr>"
  using rulesfile_bare_integer[of
      "\<lambda>p. Inr \<lparr>lines = [''# Falco rules'', [], ''- required_engine_version: 3'',
                          ''- rule: shell in container''], read_err = None\<rparr>"
      "''rules/falco_rules.yaml''"
      "\<lparr>lines = [''# Falco rules'', [], ''- required_engine_version: 3'',
                 ''- rule: shell in container''], read_err = None\<rparr>"
      "[''# Falco rules'', []]" "[''- rule: shell in container'']"
      "\<lparr>EngineVersionKey = ''engine_version_semver'', PluginAPIVersion = ''plugin_api_version''\<rparr>"]
  by (simp add: HasPrefix_def rulesEngineAnchor_def)

text \<open>
  C1 as the spec words it speaks of every rules file whose first line with the anchor
  prefix is \<open>- required_engine_version: 3\<close>. It fails for the file that has this line
  after a line of 65536 letters: the scanner stops at the long line with
  \<open>ErrTooLong\<close>, the program does not look at \<open>Scanner.Err\<close>, and the function reports
  that the requirement was not found.
\<close>

theorem rulesfile_bare_integer_counterexample:
  "text_lines (replicate 65536 (CHR ''a'') @ CHR 0x0A # ''- required_engine_version: 3'' @ [CHR 0x0A]) =
       [replicate 65536 (CHR ''a''), ''- required_engine_version: 3''] \<and>
   \<not> HasPrefix (replicate 65536 (CHR ''a'')) rulesEngineAnchor \<and>
   rulesfileRequirement \<lparr>EngineVersionKey = ''engine_version_semver'', PluginAPIVersion = ''plugin_api_version''\<rparr>
       (one_file ''rules/falco_rules.yaml''
          (regular_file (replicate 65536 (CHR ''a'') @ CHR 0x0A # ''- required_engine_version: 3'' @ [CHR 0x0A])))
       ''rules/falco_rules.yaml'' =
     Err (Errorf ''requirements for rulesfile %q: %w''
            [S ''rules/falco_rules.yaml'', E ErrReqNotFound]) \<and>
   rulesfileRequirement \<lparr>EngineVersionKey = ''engine_version_semver'', PluginAPIVersion = ''plugin_api_version''\<rparr>
       (one_file ''rules/falco_rules.yaml''
          (regular_file (replicate 65536 (CHR ''a'') @ CHR 0x0A # ''- required_engine_version: 3'' @ [CHR 0x0A])))
       ''rules/falco_rules.yaml'' \<noteq>
     Ok \<lparr>Name = ''engine_version_semver'', Version = ''0.3.0''\<rparr>"
proof -
  have tail: "text_lines (''- required_engine_version: 3'' @ [CHR 0x0A]) = [''- required_engine_version: 3'']"
    using last_line_text[of "''- required_engine_version: 3''"] by (simp add: dropCR_def)
  have content: "text_lines (replicate 65536 (CHR ''a'') @ CHR 0x0A # ''- required_engine_version: 3'' @ [CHR 0x0A]) =
       [replicate 65536 (CHR ''a''), ''- required_engine_version: 3'']"
    using long_line_text[of "''- required_engine_version: 3'' @ [CHR 0x0A]"] tail by simp
  have run: "rulesfileRequirement \<lparr>EngineVersionKey = ''engine_version_semver'', PluginAPIVersion = ''plugin_api_version''\<rparr>
       (one_file ''rules/falco_rules.yaml''
          (regular_file (replicate 65536 (CHR ''a'') @ CHR 0x0A # ''- required_engine_version: 3'' @ [CHR 0x0A])))
       ''rules/falco_rules.yaml'' =
     Err (Errorf ''requirements for rulesfile %q: %w''
            [S ''rules/falco_rules.yaml'', E ErrReqNotFound])"
    by (rule rulesfile_no_anchor[where opened = "regular_file (replicate 65536 (CHR ''a'') @ CHR 0x0A # ''- required_engine_version: 3'' @ [CHR 0x0A])"])
      (simp_all add: one_file_def long_line_file)
  from content run long_line_no_anchor show ?thesis
    by simp
qed

text \<open>
  C2. The claim: for every rules file whose first line with the anchor prefix is
  \<open>- required_engine_version: 1.2.3\<close>, the version returned is \<open>1.2.3\<close>, unchanged.
  The code splits the line at the colon and parses the field as it stands, with its
  leading space: strict parsing rejects \<open>'' 1.2.3''\<close> (a space in the major number), the
  tolerant parser accepts it as 1.2.3, and the remap of the fallback branch then
  returns \<open>0.1.0\<close>.
\<close>

theorem rulesfile_full_semver_remapped:
  assumes "Open filePath = Inr opened"
    and "lines opened = pre @ ''- required_engine_version: 1.2.3'' # rest"
    and "list_all (\<lambda>x. \<not> HasPrefix x rulesEngineAnchor) pre"
  shows "rulesfileRequirement K Open filePath =
           Ok \<lparr>Name = EngineVersionKey K, Version = ''0.1.0''\<rparr> \<and>
         Parse '' 1.2.3'' =
           Inl (Errorf ''Invalid character(s) found in major number %q'' [S '' 1'']) \<and>
         ParseTolerant '' 1.2.3'' =
           Inr \<lparr>Major = 1, Minor = 2, Patch = 3, Pre = [], Build = []\<rparr>"
proof -
  have strict: "Parse '' 1.2.3'' =
      Inl (Errorf ''Invalid character(s) found in major number %q'' [S '' 1''])"
    by (simp add: eval_defs)
  have tolerant:
    "ParseTolerant '' 1.2.3'' = Inr \<lparr>Major = 1, Minor = 2, Patch = 3, Pre = [], Build = []\<rparr>"
    by (simp add: eval_defs)
  have shown: "Version_String \<lparr>Major = 0, Minor = 1, Patch = 0, Pre = [], Build = []\<rparr> = ''0.1.0''"
    by (simp add: eval_defs)
  have anchor: "HasPrefix ''- required_engine_version: 1.2.3'' rulesEngineAnchor"
    by (simp add: HasPrefix_def rulesEngineAnchor_def)
  have "rulesfileRequirement K Open filePath =
          Ok \<lparr>Name = EngineVersionKey K, Version = ''0.1.0''\<rparr>"
    by (simp add: rulesfile_first_anchor[where Open = Open and filePath = filePath, OF assms anchor]
        strict tolerant shown)
  with strict tolerant show ?thesis by simp
qed

theorem rulesfile_full_semver_remapped_witness:
  "rulesfileRequirement \<lparr>EngineVersionKey = ''engine_version_semver'', PluginAPIVersion = ''plugin_api_version''\<rparr>
     (\<lambda>p. Inr \<lparr>lines = [''- required_engine_version: 1.2.3'', ''- rule: shell in container''], read_err = None\<rparr>) ''rules/falco_rules.yaml'' =
   Ok \<lparr>Name = ''engine_version_semver'', Version = ''0.1.0''\<rparr>"
  using rulesfile_full_semver_remapped[where Open = "\<lambda>p. Inr \<lparr>lines = [''- required_engine_version: 1.2.3'', ''- rule: shell in container''], read_err = None\<rparr>"
      and filePath = "''rules/falco_rules.yaml''"
      and opened = "\<lparr>lines = [''- required_engine_version: 1.2.3'', ''- rule: shell in container''], read_err = None\<rparr>"
      and K = "\<lparr>EngineVersionKey = ''engine_version_semver'', PluginAPIVersion = ''plugin_api_version''\<rparr>"
      and pre = "[]" and rest = "[''- rule: shell in container'']"]
  by (simp add: HasPrefix_def rulesEngineAnchor_def)

text \<open>
  C3. For every rules file in which no line begins with the anchor prefix,
  \<open>rulesfileRequirement\<close> fails with an error that wraps the package's
  \<open>ErrReqNotFound\<close> value, so that \<open>errors.Is\<close> matches it, and whose first operand is
  the file path.
\<close>

theorem rulesfile_requirement_not_found:
  assumes "Open filePath = Inr opened"
    and "list_all (\<lambda>x. \<not> HasPrefix x rulesEngineAnchor) (lines opened)"
  shows "rulesfileRequirement K Open filePath =
           Err (Errorf ''requirements for rulesfile %q: %w'' [S filePath, E ErrReqNotFound]) \<and>
         Is (Errorf ''requirements for rulesfile %q: %w'' [S filePath, E ErrReqNotFound])
           ErrReqNotFound \<and>
         Unwrap (Errorf ''requirements for rulesfile %q: %w'' [S filePath, E ErrReqNotFound]) =
           Some ErrReqNotFound"
  using rulesfile_no_anchor[where Open = Open and filePath = filePath, OF assms]
  by (simp add: Is_def ErrReqNotFound_def)

theorem rulesfile_requirement_not_found_witness:
  "rulesfileRequirement \<lparr>EngineVersionKey = ''engine_version_semver'', PluginAPIVersion = ''plugin_api_version''\<rparr>
     (\<lambda>p. Inr \<lparr>lines = [''# Falco rules'', ''- rule: shell in container'', ''  required_engine_version: 3''], read_err = None\<rparr>) ''rules/falco_rules.yaml'' =
   Err (Errorf ''requirements for rulesfile %q: %w'' [S ''rules/falco_rules.yaml'', E ErrReqNotFound])"
  using rulesfile_requirement_not_found[where Open = "\<lambda>p. Inr \<lparr>lines = [''# Falco rules'', ''- rule: shell in container'', ''  required_engine_version: 3''], read_err = None\<rparr>"
      and filePath = "''rules/falco_rules.yaml''"
      and opened = "\<lparr>lines = [''# Falco rules'', ''- rule: shell in container'', ''  required_engine_version: 3''], read_err = None\<rparr>"
      and K = "\<lparr>EngineVersionKey = ''engine_version_semver'', PluginAPIVersion = ''plugin_api_version''\<rparr>"]
  by (simp add: HasPrefix_def rulesEngineAnchor_def)




text \<open>
  C5. The claim: when the first anchor line has no \<open>:\<close>, the function returns a parse
  error to its caller. The code indexes \<open>tokens[1]\<close> without a length check: the split
  of such a line has one element, and the function panics with an index out of range.
\<close>

theorem rulesfile_anchor_without_colon_panics:
  assumes "Open filePath = Inr opened"
    and "lines opened = pre @ l # rest"
    and "list_all (\<lambda>x. \<not> HasPrefix x rulesEngineAnchor) pre"
    and "HasPrefix l rulesEngineAnchor"
    and "CHR '':'' \<notin> set l"
  shows "rulesfileRequirement K Open filePath = Panic (IndexOutOfRange 1 1)"
  by (simp add: rulesfile_first_anchor[where Open = Open and filePath = filePath, OF assms(1-4)]
      Split_no_sep[OF assms(5)])

theorem rulesfile_anchor_without_colon_panics_witness:
  "rulesfileRequirement \<lparr>EngineVersionKey = ''engine_version_semver'', PluginAPIVersion = ''plugin_api_version''\<rparr>
     (\<lambda>p. Inr \<lparr>lines = [''- required_engine_version'', ''  3''], read_err = None\<rparr>) ''rules/falco_rules.yaml'' =
   Panic (IndexOutOfRange 1 1)"
  using rulesfile_anchor_without_colon_panics[where Open = "\<lambda>p. Inr \<lparr>lines = [''- required_engine_version'', ''  3''], read_err = None\<rparr>"
      and filePath = "''rules/falco_rules.yaml''"
      and opened = "\<lparr>lines = [''- required_engine_version'', ''  3''], read_err = None\<rparr>"
      and K = "\<lparr>EngineVersionKey = ''engine_version_semver'', PluginAPIVersion = ''plugin_api_version''\<rparr>"
      and pre = "[]" and rest = "[''  3'']"
      and l = "''- required_engine_version''"]
  by (simp add: HasPrefix_def rulesEngineAnchor_def)

text \<open>
  C6, amended. When several lines begin with the anchor prefix and the scanner yields
  the first of them (no earlier line reaches the scanner's limit of 64 KiB and no
  read fails before it), only that first one in file order is used: the result is
  the result for the file that holds this line alone, whatever comes before and
  after it. In particular, when that line is \<open>- required_engine_version: 1\<close>, the
  version is \<open>0.1.0\<close>, also when a later line says \<open>- required_engine_version: 2\<close>.
\<close>

theorem rulesfile_first_anchor_only:
  assumes "Open filePath = Inr opened"
    and "lines opened = pre @ l # rest"
    and "list_all (\<lambda>x. \<not> HasPrefix x rulesEngineAnchor) pre"
    and "HasPrefix l rulesEngineAnchor"
  shows "rulesfileRequirement K Open filePath =
           rulesfileRequirement K (\<lambda>p. Inr \<lparr>lines = [l], read_err = None\<rparr>) filePath \<and>
         (l = ''- required_engine_version: 1'' \<longrightarrow>
            rulesfileRequirement K Open filePath =
              Ok \<lparr>Name = EngineVersionKey K, Version = ''0.1.0''\<rparr>)"
proof -
  have alone: "rulesfileRequirement K Open filePath =
      rulesfileRequirement K (\<lambda>p. Inr \<lparr>lines = [l], read_err = None\<rparr>) filePath"
    using rulesfile_first_anchor[where Open = Open and filePath = filePath and K = K, OF assms]
      rulesfile_first_anchor[where Open = "\<lambda>p. Inr \<lparr>lines = [l], read_err = None\<rparr>"
        and filePath = filePath and opened = "\<lparr>lines = [l], read_err = None\<rparr>"
        and pre = "[]" and l = l and rest = "[]" and K = K] assms(4)
    by simp
  have strict: "Parse '' 1'' = Inl (ErrorsNew ''No Major.Minor.Patch elements found'')"
    by (simp add: eval_defs)
  have tolerant:
    "ParseTolerant '' 1'' = Inr \<lparr>Major = 1, Minor = 0, Patch = 0, Pre = [], Build = []\<rparr>"
    by (simp add: eval_defs)
  have shown: "Version_String \<lparr>Major = 0, Minor = 1, Patch = 0, Pre = [], Build = []\<rparr> = ''0.1.0''"
    by (simp add: eval_defs)
  have "rulesfileRequirement K Open filePath =
          Ok \<lparr>Name = EngineVersionKey K, Version = ''0.1.0''\<rparr>"
    if "l = ''- required_engine_version: 1''"
    using rulesfile_first_anchor[where Open = Open and filePath = filePath and K = K, OF assms]
    by (simp add: that strict tolerant shown)
  with alone show ?thesis by simp
qed

theorem rulesfile_first_anchor_only_witness:
  "rulesfileRequirement \<lparr>EngineVersionKey = ''engine_version_semver'', PluginAPIVersion = ''plugin_api_version''\<rparr>
     (\<lambda>p. Inr \<lparr>lines = [''# Falco rules'', ''- required_engine_version: 1'',
                          ''- required_engine_version: 2''], read_err = None\<rparr>)
     ''rules/falco_rules.yaml'' =
   Ok \<lparr>Name = ''engine_version_semver'', Version = ''0.1.0''\<rparr>"
proof -
  have anchor: "HasPrefix ''- required_engine_version: 1'' rulesEngineAnchor"
    and before: "list_all (\<lambda>x. \<not> HasPrefix x rulesEngineAnchor) [''# Falco rules'']"
    by (simp_all add: HasPrefix_def rulesEngineAnchor_def)
  from rulesfile_first_anchor_only[where
      Open = "\<lambda>p. Inr \<lparr>lines = [''# Falco rules'', ''- required_engine_version: 1'',
                          ''- required_engine_version: 2''], read_err = None\<rparr>"
      and filePath = "''rules/falco_rules.yaml''"
      and opened = "\<lparr>lines = [''# Falco rules'', ''- required_engine_version: 1'',
                          ''- required_engine_version: 2''], read_err = None\<rparr>"
      and pre = "[''# Falco rules'']" and l = "''- required_engine_version: 1''"
      and rest = "[''- required_engine_version: 2'']"
      and K = "\<lparr>EngineVersionKey = ''engine_version_semver'', PluginAPIVersion = ''plugin_api_version''\<rparr>", OF _ _ before anchor,
      THEN conjunct2]
  show ?thesis by simp
qed

text \<open>
  C6 as the spec words it speaks of every rules file with more than one anchor line.
  It fails for the file that has \<open>- required_engine_version: 1\<close> and then
  \<open>- required_engine_version: 2\<close> after a line of 65536 letters: the scanner stops at
  the long line and neither anchor line is used; the function reports that the
  requirement was not found, not version \<open>0.1.0\<close>.
\<close>

theorem rulesfile_first_anchor_only_counterexample:
  "text_lines (replicate 65536 (CHR ''a'') @ CHR 0x0A # ''- required_engine_version: 1'' @ CHR 0x0A # ''- required_engine_version: 2'' @ [CHR 0x0A]) =
       [replicate 65536 (CHR ''a''), ''- required_engine_version: 1'', ''- required_engine_version: 2''] \<and>
   \<not> HasPrefix (replicate 65536 (CHR ''a'')) rulesEngineAnchor \<and>
   rulesfileRequirement \<lparr>EngineVersionKey = ''engine_version_semver'', PluginAPIVersion = ''plugin_api_version''\<rparr>
       (one_file ''rules/falco_rules.yaml''
          (regular_file (replicate 65536 (CHR ''a'') @ CHR 0x0A # ''- required_engine_version: 1'' @ CHR 0x0A # ''- required_engine_version: 2'' @ [CHR 0x0A])))
       ''rules/falco_rules.yaml'' =
     Err (Errorf ''requirements for rulesfile %q: %w''
            [S ''rules/falco_rules.yaml'', E ErrReqNotFound]) \<and>
   rulesfileRequirement \<lparr>EngineVersionKey = ''engine_version_semver'', PluginAPIVersion = ''plugin_api_version''\<rparr>
       (one_file ''rules/falco_rules.yaml''
          (regular_file (replicate 65536 (CHR ''a'') @ CHR 0x0A # ''- required_engine_version: 1'' @ CHR 0x0A # ''- required_engine_version: 2'' @ [CHR 0x0A])))
       ''rules/falco_rules.yaml'' \<noteq>
     Ok \<lparr>Name = ''engine_version_semver'', Version = ''0.1.0''\<rparr>"
proof -
  have tail: "text_lines (''- required_engine_version: 1'' @ CHR 0x0A # ''- required_engine_version: 2'' @ [CHR 0x0A]) = [''- required_engine_version: 1'', ''- required_engine_version: 2'']"
    using text_lines_line[of "''- required_engine_version: 1''" "''- required_engine_version: 2'' @ [CHR 0x0A]"] last_line_text[of "''- required_engine_version: 2''"]
    by (simp add: dropCR_def)
  have content: "text_lines (replicate 65536 (CHR ''a'') @ CHR 0x0A # ''- required_engine_version: 1'' @ CHR 0x0A # ''- required_engine_version: 2'' @ [CHR 0x0A]) =
       [replicate 65536 (CHR ''a''), ''- required_engine_version: 1'', ''- required_engine_version: 2'']"
    using long_line_text[of "''- required_engine_version: 1'' @ CHR 0x0A # ''- required_engine_version: 2'' @ [CHR 0x0A]"] tail by simp
  have run: "rulesfileRequirement \<lparr>EngineVersionKey = ''engine_version_semver'', PluginAPIVersion = ''plugin_api_version''\<rparr>
       (one_file ''rules/falco_rules.yaml''
          (regular_file (replicate 65536 (CHR ''a'') @ CHR 0x0A # ''- required_engine_version: 1'' @ CHR 0x0A # ''- required_engine_version: 2'' @ [CHR 0x0A])))
       ''rules/falco_rules.yaml'' =
     Err (Errorf ''requirements for rulesfile %q: %w''
            [S ''rules/falco_rules.yaml'', E ErrReqNotFound])"
    by (rule rulesfile_no_anchor[where opened = "regular_file (replicate 65536 (CHR ''a'') @ CHR 0x0A # ''- required_engine_version: 1'' @ CHR 0x0A # ''- required_engine_version: 2'' @ [CHR 0x0A])"])
      (simp_all add: one_file_def long_line_file)
  from content run long_line_no_anchor show ?thesis
    by simp
qed

text \<open>
  C7. The claim: when the file cannot be opened, the error includes the file path and
  the underlying cause of the failure. The code formats the variable \<open>file\<close>, which is
  nil on this branch, where \<open>err\<close> was meant: the error carries the path and a nil
  operand, it is the same for every cause, and it wraps nothing.
\<close>

theorem rulesfile_open_error_drops_cause:
  assumes "Open filePath = Inl cause"
  shows "rulesfileRequirement K Open filePath =
           Err (Errorf ''unable to open file %q: %v'' [S filePath, NilFile]) \<and>
         Unwrap (Errorf ''unable to open file %q: %v'' [S filePath, NilFile]) = None"
  using assms by (simp add: rulesfileRequirement_def)

theorem rulesfile_open_error_drops_cause_witness:
  "rulesfileRequirement \<lparr>EngineVersionKey = ''engine_version_semver'', PluginAPIVersion = ''plugin_api_version''\<rparr>
     (\<lambda>p. Inl (Foreign ''open /nonexistent/rules.yaml: no such file or directory''))
     ''/nonexistent/rules.yaml'' =
   Err (Errorf ''unable to open file %q: %v'' [S ''/nonexistent/rules.yaml'', NilFile])"
  using rulesfile_open_error_drops_cause[where
      Open = "\<lambda>p. Inl (Foreign ''open /nonexistent/rules.yaml: no such file or directory'')"
      and filePath = "''/nonexistent/rules.yaml''"
      and cause = "Foreign ''open /nonexistent/rules.yaml: no such file or directory''"
      and K = "\<lparr>EngineVersionKey = ''engine_version_semver'', PluginAPIVersion = ''plugin_api_version''\<rparr>"]
  by simp

text \<open>
  C8. For every plugin path that the loader opens, \<open>pluginRequirement\<close> returns the
  requirement named \<open>PluginAPIVersion\<close> whose version is the loader's
  \<open>RequiredAPIVersion\<close> string as it is, whatever that string is.
\<close>

theorem plugin_requirement_verbatim:
  assumes "NewPlugin filePath = Inr plugin"
  shows "pluginRequirement K NewPlugin filePath =
           Ok \<lparr>Name = PluginAPIVersion K, Version = RequiredAPIVersion (Info plugin)\<rparr>"
  using assms by (simp add: pluginRequirement_def)

theorem plugin_requirement_verbatim_witness:
  "pluginRequirement \<lparr>EngineVersionKey = ''engine_version_semver'', PluginAPIVersion = ''plugin_api_version''\<rparr>
     (\<lambda>p. Inr (Plugin \<lparr>RequiredAPIVersion = ''2.0.0''\<rparr>)) ''plugins/libk8saudit.so'' =
   Ok \<lparr>Name = ''plugin_api_version'', Version = ''2.0.0''\<rparr>"
  using plugin_requirement_verbatim[where
      NewPlugin = "\<lambda>p. Inr (Plugin \<lparr>RequiredAPIVersion = ''2.0.0''\<rparr>)"
      and filePath = "''plugins/libk8saudit.so''"
      and plugin = "Plugin \<lparr>RequiredAPIVersion = ''2.0.0''\<rparr>"
      and K = "\<lparr>EngineVersionKey = ''engine_version_semver'', PluginAPIVersion = ''plugin_api_version''\<rparr>"]
  by simp

text \<open>
  C10. When the scanner stops on an error (a failed read, a line longer than its
  buffer) the program does not notice: \<open>Scanner.Err\<close> is never called. If no line
  yielded before the error has the anchor prefix, the function returns the
  \<open>ErrReqNotFound\<close> error for the path; and in every case the result is the one the
  same lines give when the scan ends at the end of the file, so there is no outcome
  of its own for a read error.
\<close>

theorem rulesfile_scan_error_not_inspected:
  assumes "Open filePath = Inr opened"
    and "read_err opened = Some e"
  shows "(list_all (\<lambda>x. \<not> HasPrefix x rulesEngineAnchor) (lines opened) \<longrightarrow>
            rulesfileRequirement K Open filePath =
              Err (Errorf ''requirements for rulesfile %q: %w'' [S filePath, E ErrReqNotFound])) \<and>
         rulesfileRequirement K Open filePath =
           rulesfileRequirement K
             (\<lambda>p. Inr \<lparr>lines = lines opened, read_err = None\<rparr>) filePath"
proof -
  have "rulesfileRequirement K (\<lambda>p. Inr \<lparr>lines = lines opened, read_err = None\<rparr>) filePath =
      rulesfileRequirement K Open filePath"
    by (rule rulesfile_depends_on_lines[where Open = Open and filePath = filePath
          and opened = opened and opened' = "\<lparr>lines = lines opened, read_err = None\<rparr>"])
      (simp_all add: assms(1))
  then show ?thesis
    using rulesfile_no_anchor[where Open = Open and filePath = filePath and K = K, OF assms(1)]
    by simp
qed

theorem rulesfile_scan_error_not_inspected_witness:
  "rulesfileRequirement \<lparr>EngineVersionKey = ''engine_version_semver'', PluginAPIVersion = ''plugin_api_version''\<rparr>
     (\<lambda>p. Inr \<lparr>lines = [''# Falco rules'', ''- rule: shell in container''],
                read_err = Some (ErrorsNew ''bufio.Scanner: token too long'')\<rparr>)
     ''rules/falco_rules.yaml'' =
   Err (Errorf ''requirements for rulesfile %q: %w''
          [S ''rules/falco_rules.yaml'', E ErrReqNotFound])"
proof -
  have none: "list_all (\<lambda>x. \<not> HasPrefix x rulesEngineAnchor)
      [''# Falco rules'', ''- rule: shell in container'']"
    by (simp add: HasPrefix_def rulesEngineAnchor_def)
  from rulesfile_scan_error_not_inspected[where
      Open = "\<lambda>p. Inr \<lparr>lines = [''# Falco rules'', ''- rule: shell in container''],
                read_err = Some (ErrorsNew ''bufio.Scanner: token too long'')\<rparr>"
      and filePath = "''rules/falco_rules.yaml''"
      and opened = "\<lparr>lines = [''# Falco rules'', ''- rule: shell in container''],
                read_err = Some (ErrorsNew ''bufio.Scanner: token too long'')\<rparr>"
      and e = "ErrorsNew ''bufio.Scanner: token too long''"
      and K = "\<lparr>EngineVersionKey = ''engine_version_semver'', PluginAPIVersion = ''plugin_api_version''\<rparr>", THEN conjunct1] none
  show ?thesis by simp
qed

text \<open>
  C9. Whenever \<open>rulesfileRequirement\<close> succeeds, the version of the requirement it
  returns is a valid semantic version in canonical form: the strict parser
  \<open>semver.Parse\<close> accepts it, and rendering the parsed version gives the same string
  back (\<open>MAJOR.MINOR.PATCH\<close>, then the prerelease and build parts if any). This holds
  on both paths, for a token that is a semantic version and for a bare integer.
\<close>

theorem rulesfile_version_is_semver:
  assumes "rulesfileRequirement K Open filePath = Ok r"
  shows "\<exists>v. Parse (Version r) = Inr v \<and> Version_String v = Version r"
proof -
  from assms obtain opened where opened: "Open filePath = Inr opened"
    by (cases "Open filePath") (simp_all add: rulesfileRequirement_def)
  have "\<not> list_all (\<lambda>x. \<not> HasPrefix x rulesEngineAnchor) (lines opened)"
    using rulesfile_no_anchor[where Open = Open and filePath = filePath and K = K, OF opened] assms
    by auto
  from first_anchor_split[OF this] obtain pre l rest
    where "lines opened = pre @ l # rest"
      and "list_all (\<lambda>x. \<not> HasPrefix x rulesEngineAnchor) pre"
      and "HasPrefix l rulesEngineAnchor"
    by blast
  from rulesfile_first_anchor[where Open = Open and filePath = filePath and K = K, OF opened this]
    assms
  have "(\<exists>reqVer. Parse (Split l (CHR '':'') ! 1) = Inr reqVer \<and>
          Version r = Version_String reqVer) \<or>
      (\<exists>m. Version r = Version_String
          \<lparr>Major = 0, Minor = m, Patch = 0, Pre = [], Build = []\<rparr>)"
    by (auto simp: Let_def split: if_splits sum.splits)
  then show ?thesis
  proof
    assume "\<exists>reqVer. Parse (Split l (CHR '':'') ! 1) = Inr reqVer \<and>
        Version r = Version_String reqVer"
    then obtain reqVer where "Parse (Split l (CHR '':'') ! 1) = Inr reqVer"
      and "Version r = Version_String reqVer"
      by blast
    with Parse_String[of "Split l (CHR '':'') ! 1" reqVer] show ?thesis by simp
  next
    assume "\<exists>m. Version r = Version_String
        \<lparr>Major = 0, Minor = m, Patch = 0, Pre = [], Build = []\<rparr>"
    then obtain m where "Version r = Version_String
        \<lparr>Major = 0, Minor = m, Patch = 0, Pre = [], Build = []\<rparr>"
      by blast
    then show ?thesis
      using Parse_plain[of 0 m 0] by (simp add: Version_String_plain)
  qed
qed

theorem rulesfile_version_is_semver_witness:
  "rulesfileRequirement \<lparr>EngineVersionKey = ''engine_version_semver'', PluginAPIVersion = ''plugin_api_version''\<rparr>
     (\<lambda>p. Inr \<lparr>lines = [''# Falco rules'', ''- required_engine_version: 3''], read_err = None\<rparr>)
     ''rules/falco_rules.yaml'' =
   Ok \<lparr>Name = ''engine_version_semver'', Version = ''0.3.0''\<rparr> \<and>
   (\<exists>v. Parse ''0.3.0'' = Inr v \<and> Version_String v = ''0.3.0'')"
proof -
  have anchor: "HasPrefix ''- required_engine_version: 3'' rulesEngineAnchor"
    and before: "list_all (\<lambda>x. \<not> HasPrefix x rulesEngineAnchor) [''# Falco rules'']"
    by (simp_all add: HasPrefix_def rulesEngineAnchor_def)
  have strict: "Parse '' 3'' = Inl (ErrorsNew ''No Major.Minor.Patch elements found'')"
    by (simp add: eval_defs)
  have tolerant:
    "ParseTolerant '' 3'' = Inr \<lparr>Major = 3, Minor = 0, Patch = 0, Pre = [], Build = []\<rparr>"
    by (simp add: eval_defs)
  have shown: "Version_String \<lparr>Major = 0, Minor = 3, Patch = 0, Pre = [], Build = []\<rparr> = ''0.3.0''"
    by (simp add: eval_defs)
  have run: "rulesfileRequirement \<lparr>EngineVersionKey = ''engine_version_semver'', PluginAPIVersion = ''plugin_api_version''\<rparr>
     (\<lambda>p. Inr \<lparr>lines = [''# Falco rules'', ''- required_engine_version: 3''], read_err = None\<rparr>)
     ''rules/falco_rules.yaml'' =
   Ok \<lparr>Name = ''engine_version_semver'', Version = ''0.3.0''\<rparr>"
    using rulesfile_first_anchor[where
        Open = "\<lambda>p. Inr \<lparr>lines = [''# Falco rules'', ''- required_engine_version: 3''],
                  read_err = None\<rparr>"
        and filePath = "''rules/falco_rules.yaml''"
        and opened = "\<lparr>lines = [''# Falco rules'', ''- required_engine_version: 3''],
                  read_err = None\<rparr>"
        and pre = "[''# Falco rules'']" and l = "''- required_engine_version: 3''"
        and rest = "[]" and K = "\<lparr>EngineVersionKey = ''engine_version_semver'', PluginAPIVersion = ''plugin_api_version''\<rparr>", OF _ _ before anchor]
    by (simp add: strict tolerant shown)
  from rulesfile_version_is_semver[OF run] run show ?thesis by simp
qed

end
